theory Spec2Isabelle
  imports Main "HOL-Library.AList"
begin

section \<open>The exporter's data\<close>

text \<open>
  The program is the Prometheus exporter of \<^verbatim>\<open>src/unnamed/part_000\<close>: on every request
  to \<^verbatim>\<open>/metrics\<close> it reads the bookmarked URLs from SQLite, probes them with 20
  goroutines, writes each status into the gauge vector \<^verbatim>\<open>urlStatus\<close> and serves the
  registry. \<^verbatim>\<open>src/main.go\<close> is the same program before it had a request context, a
  User-Agent flag and a graceful shutdown: its handler waits for the run or for 30 seconds
  and then serves the registry in either case, also when the query failed, and nothing
  stops its workers. Its \<^verbatim>\<open>checkURL\<close> is embedded next to the current one; the rest of
  the development is about part_000.

  Go's \<^verbatim>\<open>error\<close> values only matter by their presence. The HTTP client, the URL
  parser and the SQL driver are libraries: what they answer is the environment's choice
  and comes into the model as a value.
\<close>

datatype error = Error string

record request =
  req_method :: string
  req_url :: string
  req_header :: "(string \<times> string) list"

record response =
  StatusCode :: int

record http_client =
  Timeout :: nat

text \<open>
  What the network answers at one moment: \<^verbatim>\<open>http.NewRequestWithContext(ctx, m, url, nil)\<close>
  and \<^verbatim>\<open>client.Do(req)\<close>. The timeout of the client is in seconds.
\<close>

record net =
  NewRequestWithContext :: "string \<Rightarrow> string \<Rightarrow> error + request"
  client_Do :: "http_client \<Rightarrow> request \<Rightarrow> error + response"

text \<open>
  \<^verbatim>\<open>type metricUpdate struct { url string; status float64 }\<close>. A status is
  \<^verbatim>\<open>float64(resp.StatusCode)\<close> or the literal 0: an integer that float64 holds
  exactly, so the model keeps the integer.
\<close>

record metricUpdate =
  url :: string
  status :: int

definition header_Set :: "request \<Rightarrow> string \<Rightarrow> string \<Rightarrow> request" where
  "header_Set req k v = req\<lparr>req_header := AList.update k v (req_header req)\<rparr>"

text \<open>\<^verbatim>\<open>checkURL\<close> of part_000, lines 42-60.\<close>

definition checkURL :: "net \<Rightarrow> string \<Rightarrow> string \<Rightarrow> int" where
  "checkURL env userAgent u =
     (case NewRequestWithContext env ''GET'' u of
        Inl err \<Rightarrow> 0
      | Inr req \<Rightarrow>
          (let req' = header_Set req ''User-Agent'' userAgent;
               client = \<lparr>Timeout = 5\<rparr>
           in case client_Do env client req' of
                Inl err \<Rightarrow> 0
              | Inr resp \<Rightarrow> StatusCode resp))"

text \<open>
  \<^verbatim>\<open>checkURL\<close> of main.go, lines 37-48: \<^verbatim>\<open>client.Get(url)\<close> builds the request and
  sends it in one call, with no header of the program's own.
\<close>

definition checkURL_main_go :: "(http_client \<Rightarrow> string \<Rightarrow> error + response) \<Rightarrow> string \<Rightarrow> int" where
  "checkURL_main_go client_Get u =
     (let client = \<lparr>Timeout = 5\<rparr>
      in case client_Get client u of
           Inl err \<Rightarrow> 0
         | Inr resp \<Rightarrow> StatusCode resp)"

section \<open>The process state\<close>

text \<open>
  One of the 20 \<^verbatim>\<open>urlChecker\<close> goroutines of a run (part_000, lines 62-80), by the
  place it stands at: the outer \<^verbatim>\<open>select\<close>, inside \<^verbatim>\<open>checkURL\<close>, the inner
  \<^verbatim>\<open>select\<close> with its result in hand, or returned (\<^verbatim>\<open>wg.Done()\<close> has run).
\<close>

datatype worker = AwaitUrl | Probing string | AwaitSend metricUpdate | Exited

text \<open>
  The goroutine of \<^verbatim>\<open>collectMetrics\<close> that reads the rows (lines 98-112): at
  \<^verbatim>\<open>rows.Next()\<close>, at its \<^verbatim>\<open>select\<close> with a URL to send, or returned (and
  \<^verbatim>\<open>urlChan\<close> closed by the deferred \<^verbatim>\<open>close\<close>).
\<close>

datatype feeder = Scanning | Offering string | Returned

text \<open>A row of the result set: \<^verbatim>\<open>rows.Scan(&url)\<close> gives the URL or fails.\<close>

datatype row = Row string | BadRow

text \<open>
  The handler (lines 134-149): no request in flight, inside \<^verbatim>\<open>collectMetrics\<close>
  (at \<^verbatim>\<open>wg.Wait()\<close>), or inside \<^verbatim>\<open>updateMetrics\<close>.
\<close>

datatype phase = Idle | Collecting | Draining

text \<open>
  A line \<^verbatim>\<open>bookmarks_alive_status{url="..."} v\<close> of the exposition text, and the two
  replies of the handler: the text of the registry, or \<^verbatim>\<open>http.Error(w, "Internal Server
  Error", 500)\<close>, whose body has no metric line.
\<close>

record sample =
  metric :: string
  label_url :: string
  sample_val :: int

datatype reply = MetricsText "sample list" | InternalServerError


text \<open>
  The package-level variables (\<^verbatim>\<open>userAgent\<close>, \<^verbatim>\<open>urlStatus\<close>, \<^verbatim>\<open>metricsChan\<close>), the
  variables of the request in flight, and three histories that no step reads: the replies
  served, the results the current run's workers have produced, and the updates applied to
  the gauge vector.

  \<^verbatim>\<open>urlStatus\<close> is the GaugeVec with the one label \<^verbatim>\<open>url\<close>: a list of (label, value),
  where \<^verbatim>\<open>WithLabelValues(u).Set(v)\<close> overwrites the value of an existing label and
  appends a new one. A buffered channel is the list of what it holds, oldest first.
\<close>

record state =
  userAgent :: string
  urlStatus :: "(string \<times> int) list"
  metricsChan :: "metricUpdate list"
  phase :: phase
  cancelled :: bool
  rows :: "row list"
  cursor :: nat
  feeder :: feeder
  urlChan :: "string list"
  urlClosed :: bool
  workers :: "worker list"
  replies :: "reply list"
  produced :: "metricUpdate list"
  applied :: "metricUpdate list"

definition workerCount :: nat where
  "workerCount = 20"

definition urlChanCap :: nat where
  "urlChanCap = 100"

definition metricsChanCap :: nat where
  "metricsChanCap = 1000"

definition line :: "string \<Rightarrow> int \<Rightarrow> sample" where
  "line u v = \<lparr>metric = ''bookmarks_alive_status'', label_url = u, sample_val = v\<rparr>"

text \<open>
  The registry's text, as far as it is this program's: one line for each label of
  \<^verbatim>\<open>urlStatus\<close> (the Go runtime's own metrics are left out).
\<close>

definition exposition :: "(string \<times> int) list \<Rightarrow> sample list" where
  "exposition g = map (\<lambda>(u, v). line u v) g"

text \<open>
  The end of the handler: \<^verbatim>\<open>promhttp.Handler().ServeHTTP(w, r)\<close> writes the registry,
  and the deferred \<^verbatim>\<open>cancel()\<close> closes the context.
\<close>

definition serve :: "state \<Rightarrow> state" where
  "serve s = s\<lparr>phase := Idle, cancelled := True,
                replies := replies s @ [MetricsText (exposition (urlStatus s))]\<rparr>"

section \<open>The steps of the process\<close>

text \<open>
  The goroutines interleave; a schedule is the list of the steps taken, each with what the
  environment answered. Where a \<^verbatim>\<open>select\<close> has several ready cases Go picks any of
  them, so each ready case is a step of its own; a step is \<open>None\<close> where its case is not
  ready (a send on a full channel, a receive on an empty one that is still open).

  \<^item> \<^verbatim>\<open>Request q\<close>: a scrape arrives; \<open>q\<close> is the answer of \<^verbatim>\<open>db.QueryContext\<close>, an
    error or the rows. The handler of part_000 only returns after \<^verbatim>\<open>wg.Wait()\<close>; the
    model takes the scrapes one at a time (requests that overlap are outside it).
  \<^item> \<^verbatim>\<open>Deadline\<close>: \<^verbatim>\<open>ctx.Done()\<close> is closed, because the 30 seconds are over or the
    client has gone.
  \<^item> \<^verbatim>\<open>FeederNext\<close>, \<^verbatim>\<open>FeederSend\<close>, \<^verbatim>\<open>FeederCancel\<close>: the goroutine that reads the
    rows, at \<^verbatim>\<open>rows.Next()\<close> and \<^verbatim>\<open>rows.Scan\<close> and at the two cases of its
    \<^verbatim>\<open>select\<close>. \<^verbatim>\<open>FeederAbort\<close>: \<^verbatim>\<open>rows.Next()\<close> is false because database/sql has
    closed the rows of a cancelled context.
  \<^item> \<^verbatim>\<open>WorkerRecv i\<close>, \<^verbatim>\<open>WorkerCancel i\<close>, \<^verbatim>\<open>WorkerProbe i env\<close>, \<^verbatim>\<open>WorkerSend i\<close>:
    worker \<open>i\<close> receives from \<^verbatim>\<open>urls\<close> (a URL, or \<^verbatim>\<open>ok = false\<close> from the closed
    and empty channel), takes a \<^verbatim>\<open>ctx.Done()\<close> case, comes back from \<^verbatim>\<open>checkURL\<close>
    on the network \<open>env\<close>, sends its update.
  \<^item> \<^verbatim>\<open>Join\<close>: \<^verbatim>\<open>wg.Wait()\<close> returns and \<^verbatim>\<open>collectMetrics\<close> returns nil.
  \<^item> \<^verbatim>\<open>DrainRecv\<close>, \<^verbatim>\<open>DrainCancel\<close>, \<^verbatim>\<open>DrainDefault\<close>: the three cases of the
    \<^verbatim>\<open>select\<close> of \<^verbatim>\<open>updateMetrics\<close>; the last two leave it, and the handler serves.
\<close>

datatype action =
    Request "error + row list"
  | Deadline
  | FeederNext
  | FeederSend
  | FeederCancel
  | FeederAbort
  | WorkerRecv nat
  | WorkerCancel nat
  | WorkerProbe nat net
  | WorkerSend nat
  | Join
  | DrainRecv
  | DrainCancel
  | DrainDefault

fun step :: "action \<Rightarrow> state \<Rightarrow> state option" where
  "step (Request q) s =
     (if phase s \<noteq> Idle then None
      else case q of
        Inl err \<Rightarrow> Some (s\<lparr>replies := replies s @ [InternalServerError]\<rparr>)
      | Inr rs \<Rightarrow>
          Some (s\<lparr>phase := Collecting, cancelled := False, rows := rs, cursor := 0,
                  feeder := Scanning, urlChan := [], urlClosed := False,
                  workers := replicate workerCount AwaitUrl, produced := []\<rparr>))"
| "step Deadline s =
     (if phase s = Idle \<or> cancelled s then None else Some (s\<lparr>cancelled := True\<rparr>))"
| "step FeederNext s =
     (if feeder s \<noteq> Scanning then None
      else if cursor s < length (rows s) then
        (case rows s ! cursor s of
           BadRow \<Rightarrow> Some (s\<lparr>cursor := Suc (cursor s)\<rparr>)
         | Row u \<Rightarrow> Some (s\<lparr>cursor := Suc (cursor s), feeder := Offering u\<rparr>))
      else Some (s\<lparr>feeder := Returned, urlClosed := True\<rparr>))"
| "step FeederSend s =
     (case feeder s of
        Offering u \<Rightarrow>
          if length (urlChan s) < urlChanCap
          then Some (s\<lparr>urlChan := urlChan s @ [u], feeder := Scanning\<rparr>)
          else None
      | _ \<Rightarrow> None)"
| "step FeederCancel s =
     (case feeder s of
        Offering u \<Rightarrow>
          if cancelled s then Some (s\<lparr>feeder := Returned, urlClosed := True\<rparr>) else None
      | _ \<Rightarrow> None)"
| "step FeederAbort s =
     (if feeder s = Scanning \<and> cancelled s
      then Some (s\<lparr>feeder := Returned, urlClosed := True\<rparr>)
      else None)"
| "step (WorkerRecv i) s =
     (if i < length (workers s) \<and> workers s ! i = AwaitUrl then
        (case urlChan s of
           u # us \<Rightarrow> Some (s\<lparr>urlChan := us, workers := (workers s)[i := Probing u]\<rparr>)
         | [] \<Rightarrow>
             if urlClosed s then Some (s\<lparr>workers := (workers s)[i := Exited]\<rparr>) else None)
      else None)"
| "step (WorkerCancel i) s =
     (if i < length (workers s) \<and> cancelled s then
        (case workers s ! i of
           AwaitUrl \<Rightarrow> Some (s\<lparr>workers := (workers s)[i := Exited]\<rparr>)
         | AwaitSend m \<Rightarrow> Some (s\<lparr>workers := (workers s)[i := Exited]\<rparr>)
         | _ \<Rightarrow> None)
      else None)"
| "step (WorkerProbe i env) s =
     (if i < length (workers s) then
        (case workers s ! i of
           Probing u \<Rightarrow>
             (let m = \<lparr>url = u, status = checkURL env (userAgent s) u\<rparr>
              in Some (s\<lparr>workers := (workers s)[i := AwaitSend m],
                         produced := produced s @ [m]\<rparr>))
         | _ \<Rightarrow> None)
      else None)"
| "step (WorkerSend i) s =
     (if i < length (workers s) then
        (case workers s ! i of
           AwaitSend m \<Rightarrow>
             if length (metricsChan s) < metricsChanCap
             then Some (s\<lparr>metricsChan := metricsChan s @ [m],
                          workers := (workers s)[i := AwaitUrl]\<rparr>)
             else None
         | _ \<Rightarrow> None)
      else None)"
| "step Join s =
     (if phase s = Collecting \<and> list_all (\<lambda>w. w = Exited) (workers s)
      then Some (s\<lparr>phase := Draining\<rparr>)
      else None)"
| "step DrainRecv s =
     (if phase s = Draining then
        (case metricsChan s of
           m # ms \<Rightarrow>
             Some (s\<lparr>metricsChan := ms,
                     urlStatus := AList.update (url m) (status m) (urlStatus s),
                     applied := applied s @ [m]\<rparr>)
         | [] \<Rightarrow> None)
      else None)"
| "step DrainCancel s =
     (if phase s = Draining \<and> cancelled s then Some (serve s) else None)"
| "step DrainDefault s =
     (if phase s = Draining \<and> \<not> cancelled s \<and> metricsChan s = []
      then Some (serve s)
      else None)"

fun exec :: "action list \<Rightarrow> state \<Rightarrow> state option" where
  "exec [] s = Some s"
| "exec (a # as) s = (case step a s of None \<Rightarrow> None | Some s' \<Rightarrow> exec as s')"

text \<open>
  The state \<^verbatim>\<open>main\<close> leaves when it starts to serve (lines 151-170): an empty
  registry, \<^verbatim>\<open>metricsChan = make(chan metricUpdate, 1000)\<close>, no request in flight.
\<close>

definition init :: "string \<Rightarrow> state" where
  "init ua = \<lparr>userAgent = ua, urlStatus = [], metricsChan = [], phase = Idle,
              cancelled = False, rows = [], cursor = 0, feeder = Returned, urlChan = [],
              urlClosed = True, workers = [], replies = [], produced = [], applied = []\<rparr>"

section \<open>Start-up\<close>

text \<open>
  \<^verbatim>\<open>main\<close> defines three flags, all strings (lines 152-154). The command line is the
  list of the (name, value) pairs given; package flag refuses a name that is not defined
  and the process exits. \<open>db_ok\<close> says whether \<^verbatim>\<open>sql.Open\<close> and \<^verbatim>\<open>db.Ping\<close> succeed
  on a path.
\<close>

record config =
  cfg_db :: string
  cfg_port :: string
  cfg_userAgent :: string

definition flag_defaults :: config where
  "flag_defaults = \<lparr>cfg_db = ''./bookmarks.db'', cfg_port = ''8000'',
                     cfg_userAgent = ''bookmarks-alive-exporter/1.0''\<rparr>"

fun flag_Parse :: "(string \<times> string) list \<Rightarrow> config \<Rightarrow> error + config" where
  "flag_Parse [] c = Inr c"
| "flag_Parse ((n, v) # fs) c =
     (if n = ''db'' then flag_Parse fs (c\<lparr>cfg_db := v\<rparr>)
      else if n = ''port'' then flag_Parse fs (c\<lparr>cfg_port := v\<rparr>)
      else if n = ''user-agent'' then flag_Parse fs (c\<lparr>cfg_userAgent := v\<rparr>)
      else Inl (Error (''flag provided but not defined: -'' @ n)))"

definition main :: "(string \<times> string) list \<Rightarrow> (string \<Rightarrow> bool) \<Rightarrow> error + state" where
  "main args db_ok =
     (case flag_Parse args flag_defaults of
        Inl err \<Rightarrow> Inl err
      | Inr c \<Rightarrow>
          if db_ok (cfg_db c) then Inr (init (cfg_userAgent c))
          else Inl (Error ''Error connecting to database''))"

section \<open>Invariants and measures\<close>

text \<open>
  The shape every reachable state has: a run in flight has its 20 workers, all of them have
  returned before the handler leaves \<^verbatim>\<open>collectMetrics\<close>, \<^verbatim>\<open>urlChan\<close> is closed exactly
  when the feeding goroutine has returned, and no channel holds more than its capacity.
\<close>

definition wf :: "state \<Rightarrow> bool" where
  "wf s \<longleftrightarrow>
     (phase s \<noteq> Idle \<longrightarrow> length (workers s) = workerCount)
   \<and> length (workers s) \<le> workerCount
   \<and> (phase s \<noteq> Collecting \<longrightarrow> list_all (\<lambda>w. w = Exited) (workers s))
   \<and> (urlClosed s \<longleftrightarrow> feeder s = Returned)
   \<and> cursor s \<le> length (rows s)
   \<and> length (urlChan s) \<le> urlChanCap
   \<and> length (metricsChan s) \<le> metricsChanCap"

text \<open>
  The URLs a state holds somewhere on the way from the result set to the registry: in the
  feeding goroutine's hand, in \<^verbatim>\<open>urlChan\<close>, with a worker, in \<^verbatim>\<open>metricsChan\<close>, or as a
  label of \<^verbatim>\<open>urlStatus\<close>.
\<close>

definition carried :: "worker \<Rightarrow> string option" where
  "carried w = (case w of Probing u \<Rightarrow> Some u | AwaitSend m \<Rightarrow> Some (url m) | _ \<Rightarrow> None)"

definition inflight :: "worker list \<Rightarrow> string set" where
  "inflight ws = {u. \<exists>j<length ws. carried (ws ! j) = Some u}"


















text \<open>
  The status of the last update for a URL in a list of updates, oldest first; the registry
  has one value for each label, the one applied last.
\<close>

fun last_status :: "metricUpdate list \<Rightarrow> string \<Rightarrow> int option" where
  "last_status [] u = None"
| "last_status (m # ms) u =
     (case last_status ms u of
        Some v \<Rightarrow> Some v
      | None \<Rightarrow> if url m = u then Some (status m) else None)"

definition registry_ok :: "state \<Rightarrow> bool" where
  "registry_ok s \<longleftrightarrow>
     distinct (map fst (urlStatus s))
   \<and> (\<forall>u. map_of (urlStatus s) u = last_status (applied s) u)"


definition exit_worker :: "nat \<Rightarrow> state \<Rightarrow> state" where
  "exit_worker i s = s\<lparr>workers := (workers s)[i := Exited]\<rparr>"

text \<open>The value the command line gives a flag: its last occurrence, or the default.\<close>

definition flag_given :: "string \<Rightarrow> (string \<times> string) list \<Rightarrow> string \<Rightarrow> string" where
  "flag_given n args d = (case filter (\<lambda>f. fst f = n) args of [] \<Rightarrow> d | fs \<Rightarrow> snd (last fs))"

section \<open>Concrete networks, schedules and states\<close>

text \<open>
  Four networks: every URL answers 200; every connection is refused; every URL answers
  999; and a server that answers 200 only to a request that carries the User-Agent \<open>ua\<close>
  from a client whose timeout is \<open>t\<close> seconds.
\<close>

definition net_200 :: net where
  "net_200 = \<lparr>NewRequestWithContext = (\<lambda>m u. Inr \<lparr>req_method = m, req_url = u, req_header = []\<rparr>),
              client_Do = (\<lambda>c r. Inr \<lparr>StatusCode = 200\<rparr>)\<rparr>"

definition net_down :: net where
  "net_down = \<lparr>NewRequestWithContext = (\<lambda>m u. Inr \<lparr>req_method = m, req_url = u, req_header = []\<rparr>),
               client_Do = (\<lambda>c r. Inl (Error ''connection refused''))\<rparr>"


definition net_expecting :: "string \<Rightarrow> nat \<Rightarrow> net" where
  "net_expecting ua t =
     \<lparr>NewRequestWithContext = (\<lambda>m u. Inr \<lparr>req_method = m, req_url = u, req_header = []\<rparr>),
      client_Do = (\<lambda>c r. if map_of (req_header r) ''User-Agent'' = Some ua \<and> Timeout c = t
                          then Inr \<lparr>StatusCode = 200\<rparr>
                          else Inl (Error ''no answer''))\<rparr>"

text \<open>
  A store with two URLs and a row that cannot be scanned. \<open>start_two\<close> reads the rows and
  lets workers 0 and 1 take one URL each; \<open>finish_two\<close> completes the run up to the end of
  the drain.
\<close>

definition rows_two :: "row list" where
  "rows_two = [Row ''http://a.example/'', BadRow, Row ''http://b.example/'']"

definition start_two :: "action list" where
  "start_two =
     [Request (Inr rows_two),
      FeederNext, FeederSend, FeederNext, FeederNext, FeederSend, FeederNext,
      WorkerRecv 0, WorkerRecv 1]"

definition probing_two :: state where
  "probing_two =
     \<lparr>userAgent = ''ua'', urlStatus = [], metricsChan = [], phase = Collecting,
      cancelled = False, rows = rows_two, cursor = 3, feeder = Returned, urlChan = [],
      urlClosed = True,
      workers = Probing ''http://a.example/'' # Probing ''http://b.example/'' # replicate 18 AwaitUrl,
      replies = [], produced = [], applied = []\<rparr>"



text \<open>
  The same run, timed out: worker 0 has sent its update when the deadline comes
  (\<open>timeout_two\<close>); the workers return, and \<^verbatim>\<open>updateMetrics\<close> takes its
  \<^verbatim>\<open>ctx.Done()\<close> case at once (\<open>abandon_two\<close>), so that the update stays in
  \<^verbatim>\<open>metricsChan\<close>. \<open>second_scrape\<close> is the next scrape, of a store that is now empty,
  up to the end of its drain.
\<close>

definition timeout_two :: "action list" where
  "timeout_two = [WorkerProbe 0 net_200, WorkerSend 0, Deadline]"


definition abandon_two :: "action list" where
  "abandon_two = WorkerProbe 1 net_down # map WorkerCancel [0..<20] @ [Join, DrainCancel]"

definition abandoned_two :: state where
  "abandoned_two =
     \<lparr>userAgent = ''ua'', urlStatus = [],
      metricsChan = [\<lparr>url = ''http://a.example/'', status = 200\<rparr>],
      phase = Idle, cancelled = True, rows = rows_two, cursor = 3, feeder = Returned,
      urlChan = [], urlClosed = True, workers = replicate 20 Exited,
      replies = [MetricsText []],
      produced = [\<lparr>url = ''http://a.example/'', status = 200\<rparr>,
                  \<lparr>url = ''http://b.example/'', status = 0\<rparr>],
      applied = []\<rparr>"

definition second_scrape :: "action list" where
  "second_scrape = Request (Inr []) # FeederNext # map WorkerRecv [0..<20] @ [Join, DrainRecv]"

definition second_two :: state where
  "second_two =
     \<lparr>userAgent = ''ua'', urlStatus = [(''http://a.example/'', 200)], metricsChan = [],
      phase = Draining, cancelled = False, rows = [], cursor = 0, feeder = Returned,
      urlChan = [], urlClosed = True, workers = replicate 20 Exited,
      replies = [MetricsText []], produced = [],
      applied = [\<lparr>url = ''http://a.example/'', status = 200\<rparr>]\<rparr>"






text \<open>A command line that sets the database and the User-Agent.\<close>

definition args_two :: "(string \<times> string) list" where
  "args_two = [(''db'', ''/srv/b.db''), (''user-agent'', ''ua'')]"

section \<open>The steps, case by case\<close>

text \<open>What a step that is taken does, with the guard that let it be taken.\<close>

lemma stepE [consumes 1, case_names ReqErr ReqOk Deadline NextBad NextRow NextEnd FSend FCancel
    FAbort WRecv WClosed WCancel WProbe WSend Join DrainRecv DrainCancel DrainDefault]:
  assumes "step a s = Some s'"
  obtains
    (ReqErr) e where "a = Request (Inl e)" "phase s = Idle"
      "s' = s\<lparr>replies := replies s @ [InternalServerError]\<rparr>"
  | (ReqOk) rs where "a = Request (Inr rs)" "phase s = Idle"
      "s' = s\<lparr>phase := Collecting, cancelled := False, rows := rs, cursor := 0,
                feeder := Scanning, urlChan := [], urlClosed := False,
                workers := replicate workerCount AwaitUrl, produced := []\<rparr>"
  | (Deadline) "a = Deadline" "phase s \<noteq> Idle" "\<not> cancelled s" "s' = s\<lparr>cancelled := True\<rparr>"
  | (NextBad) "a = FeederNext" "feeder s = Scanning" "cursor s < length (rows s)"
      "rows s ! cursor s = BadRow" "s' = s\<lparr>cursor := Suc (cursor s)\<rparr>"
  | (NextRow) u where "a = FeederNext" "feeder s = Scanning" "cursor s < length (rows s)"
      "rows s ! cursor s = Row u" "s' = s\<lparr>cursor := Suc (cursor s), feeder := Offering u\<rparr>"
  | (NextEnd) "a = FeederNext" "feeder s = Scanning" "\<not> cursor s < length (rows s)"
      "s' = s\<lparr>feeder := Returned, urlClosed := True\<rparr>"
  | (FSend) u where "a = FeederSend" "feeder s = Offering u" "length (urlChan s) < urlChanCap"
      "s' = s\<lparr>urlChan := urlChan s @ [u], feeder := Scanning\<rparr>"
  | (FCancel) u where "a = FeederCancel" "feeder s = Offering u" "cancelled s"
      "s' = s\<lparr>feeder := Returned, urlClosed := True\<rparr>"
  | (FAbort) "a = FeederAbort" "feeder s = Scanning" "cancelled s"
      "s' = s\<lparr>feeder := Returned, urlClosed := True\<rparr>"
  | (WRecv) i u us where "a = WorkerRecv i" "i < length (workers s)" "workers s ! i = AwaitUrl"
      "urlChan s = u # us" "s' = s\<lparr>urlChan := us, workers := (workers s)[i := Probing u]\<rparr>"
  | (WClosed) i where "a = WorkerRecv i" "i < length (workers s)" "workers s ! i = AwaitUrl"
      "urlChan s = []" "urlClosed s" "s' = s\<lparr>workers := (workers s)[i := Exited]\<rparr>"
  | (WCancel) i where "a = WorkerCancel i" "i < length (workers s)" "cancelled s"
      "workers s ! i = AwaitUrl \<or> (\<exists>m. workers s ! i = AwaitSend m)"
      "s' = s\<lparr>workers := (workers s)[i := Exited]\<rparr>"
  | (WProbe) i env u where "a = WorkerProbe i env" "i < length (workers s)"
      "workers s ! i = Probing u"
      "s' = s\<lparr>workers := (workers s)[i := AwaitSend \<lparr>url = u, status = checkURL env (userAgent s) u\<rparr>],
                produced := produced s @ [\<lparr>url = u, status = checkURL env (userAgent s) u\<rparr>]\<rparr>"
  | (WSend) i m where "a = WorkerSend i" "i < length (workers s)" "workers s ! i = AwaitSend m"
      "length (metricsChan s) < metricsChanCap"
      "s' = s\<lparr>metricsChan := metricsChan s @ [m], workers := (workers s)[i := AwaitUrl]\<rparr>"
  | (Join) "a = Join" "phase s = Collecting" "list_all (\<lambda>w. w = Exited) (workers s)"
      "s' = s\<lparr>phase := Draining\<rparr>"
  | (DrainRecv) m ms where "a = DrainRecv" "phase s = Draining" "metricsChan s = m # ms"
      "s' = s\<lparr>metricsChan := ms, urlStatus := AList.update (url m) (status m) (urlStatus s),
                applied := applied s @ [m]\<rparr>"
  | (DrainCancel) "a = DrainCancel" "phase s = Draining" "cancelled s" "s' = serve s"
  | (DrainDefault) "a = DrainDefault" "phase s = Draining" "\<not> cancelled s" "metricsChan s = []"
      "s' = serve s"
proof (cases a)
  case (Request q)
  then show ?thesis using assms ReqErr ReqOk by (cases q) (auto split: if_splits)
next
  case Deadline
  then show ?thesis using assms that(3) by (auto split: if_splits)
next
  case FeederNext
  then show ?thesis using assms NextBad NextRow NextEnd
    by (auto split: if_splits row.splits)
next
  case FeederSend
  then show ?thesis using assms FSend by (auto split: if_splits feeder.splits)
next
  case FeederCancel
  then show ?thesis using assms FCancel by (auto split: if_splits feeder.splits)
next
  case FeederAbort
  then show ?thesis using assms FAbort by (auto split: if_splits)
next
  case (WorkerRecv i)
  then show ?thesis using assms WRecv WClosed by (auto split: if_splits list.splits)
next
  case (WorkerCancel i)
  then show ?thesis using assms WCancel by (auto split: if_splits worker.splits)
next
  case (WorkerProbe i env)
  then show ?thesis using assms WProbe by (auto simp: Let_def split: if_splits worker.splits)
next
  case (WorkerSend i)
  then show ?thesis using assms WSend by (auto split: if_splits worker.splits)
next
  case Join
  then show ?thesis using assms that(15) by (auto split: if_splits)
next
  case DrainRecv
  then show ?thesis using assms that(16) by (auto split: if_splits list.splits)
next
  case DrainCancel
  then show ?thesis using assms that(17) by (auto split: if_splits)
next
  case DrainDefault
  then show ?thesis using assms that(18) by (auto split: if_splits)
qed

subsection \<open>The shape of the reachable states\<close>

lemma wf_init: "wf (init ua)"
  by (simp add: wf_def init_def)

lemma list_all_update:
  "list_all P xs \<Longrightarrow> P y \<Longrightarrow> list_all P (xs[i := y])"
  by (induction xs arbitrary: i) (auto split: nat.splits)

lemma all_exited_nth:
  "list_all (\<lambda>w. w = Exited) ws \<Longrightarrow> i < length ws \<Longrightarrow> ws ! i = Exited"
  by (simp add: list_all_length)

lemma wf_step:
  assumes "step a s = Some s'" and "wf s"
  shows "wf s'"
  using assms
proof (cases rule: stepE)
  case (WRecv i u us)
  then show ?thesis using assms(2) by (auto simp: wf_def dest: all_exited_nth)
next
  case (WClosed i)
  then show ?thesis using assms(2) by (auto simp: wf_def intro: list_all_update)
next
  case (WCancel i)
  then show ?thesis using assms(2) by (auto simp: wf_def intro: list_all_update)
next
  case (WProbe i env u)
  then show ?thesis using assms(2) by (auto simp: wf_def dest: all_exited_nth)
next
  case (WSend i m)
  then show ?thesis using assms(2) by (auto simp: wf_def dest: all_exited_nth)
qed (auto simp: wf_def serve_def)

lemma exec_invariant:
  assumes "\<And>a s s'. step a s = Some s' \<Longrightarrow> P s \<Longrightarrow> P s'"
    and "exec as s = Some s'" and "P s"
  shows "P s'"
  using assms(2,3)
proof (induction as arbitrary: s)
  case Nil
  then show ?case by simp
next
  case (Cons a as)
  then show ?case using assms(1) by (auto split: option.splits)
qed

lemma wf_exec: "exec as s = Some s' \<Longrightarrow> wf s \<Longrightarrow> wf s'"
  using exec_invariant[where P = wf] wf_step by blast

subsection \<open>No URL is dropped while the context is live\<close>



lemma inflight_replicate: "inflight (replicate n AwaitUrl) = {}"
  by (auto simp: inflight_def carried_def)




subsection \<open>The values on the way to the registry\<close>









lemma exec_append:
  "exec (as @ bs) s = (case exec as s of None \<Rightarrow> None | Some s' \<Rightarrow> exec bs s')"
  by (induction as arbitrary: s) (auto split: option.splits)

subsection \<open>Every step of a scrape uses up budget\<close>









subsection \<open>One unit of work for each row read\<close>









subsection \<open>The registry keeps the last value of every label\<close>

lemma last_status_snoc:
  "last_status (ms @ [m]) u = (if url m = u then Some (status m) else last_status ms u)"
  by (induction ms) (auto split: option.splits)

lemma last_status_None: "last_status ms u = None \<longleftrightarrow> u \<notin> url ` set ms"
  by (induction ms) (auto split: option.splits)

lemma registry_ok_init: "registry_ok (init ua)"
  by (simp add: registry_ok_def init_def)

lemma registry_ok_step:
  assumes "step a s = Some s'" and "registry_ok s"
  shows "registry_ok s'"
  using assms(1)
  by (cases rule: stepE)
    (use assms(2) in \<open>auto simp: registry_ok_def serve_def distinct_update update_conv' last_status_snoc\<close>)

lemma registry_ok_exec: "exec as s = Some s' \<Longrightarrow> registry_ok s \<Longrightarrow> registry_ok s'"
  using exec_invariant[where P = registry_ok] registry_ok_step by blast

lemma applied_step:
  assumes "step a s = Some s'"
  shows "set (applied s) \<subseteq> set (applied s')"
  using assms by (cases rule: stepE) (auto simp: serve_def)

lemma applied_exec: "exec as s = Some s' \<Longrightarrow> set (applied s) \<subseteq> set (applied s')"
proof (induction as arbitrary: s)
  case Nil
  then show ?case by simp
next
  case (Cons a as)
  then show ?case using applied_step by (fastforce split: option.splits)
qed

lemma exposition_line: "line u v \<in> set (exposition g) \<longleftrightarrow> (u, v) \<in> set g"
  by (auto simp: exposition_def line_def)

subsection \<open>The flags and the User-Agent\<close>

lemma flag_Parse_userAgent:
  "flag_Parse args c = Inr c' \<Longrightarrow>
   cfg_userAgent c' = flag_given ''user-agent'' args (cfg_userAgent c)
   \<and> fst ` set args \<subseteq> {''db'', ''port'', ''user-agent''}"
proof (induction args arbitrary: c)
  case Nil
  then show ?case by (simp add: flag_given_def)
next
  case (Cons f fs)
  obtain n v where f: "f = (n, v)" by (cases f)
  show ?case
  proof (cases "n = ''user-agent''")
    case True
    then have "flag_Parse fs (c\<lparr>cfg_userAgent := v\<rparr>) = Inr c'"
      using Cons.prems f by simp
    from Cons.IH[OF this] show ?thesis using True f
      by (simp add: flag_given_def split: list.splits)
  next
    case False
    then have "\<exists>c1. flag_Parse fs c1 = Inr c' \<and> cfg_userAgent c1 = cfg_userAgent c
                 \<and> (n = ''db'' \<or> n = ''port'')"
      using Cons.prems f by (auto split: if_splits)
    then obtain c1 where c1: "flag_Parse fs c1 = Inr c'" "cfg_userAgent c1 = cfg_userAgent c"
      "n = ''db'' \<or> n = ''port''" by blast
    from Cons.IH[OF c1(1)] show ?thesis using False f c1(2,3)
      by (auto simp: flag_given_def)
  qed
qed

lemma userAgent_step: "step a s = Some s' \<Longrightarrow> userAgent s' = userAgent s"
  by (cases rule: stepE) (auto simp: serve_def)

lemma userAgent_exec: "exec as s = Some s' \<Longrightarrow> userAgent s' = userAgent s"
proof (induction as arbitrary: s)
  case Nil
  then show ?case by simp
next
  case (Cons a as)
  then show ?case using userAgent_step by (fastforce split: option.splits)
qed

lemma checkURL_expecting:
  "checkURL (net_expecting x t) ua u = (if ua = x \<and> t = 5 then 200 else 0)"
  by (simp add: checkURL_def net_expecting_def header_Set_def update_conv')

subsection \<open>The concrete runs\<close>

lemma exec_start_two: "exec start_two (init ''ua'') = Some probing_two"
  by code_simp







lemma exec_abandoned_two:
  "exec (start_two @ timeout_two @ abandon_two) (init ''ua'') = Some abandoned_two"
  by code_simp

lemma exec_second_two: "exec second_scrape abandoned_two = Some second_two"
  by code_simp

section \<open>A completed run fills the registry\<close>




section \<open>Probe failures\<close>

text \<open>
  C2. A probe that fails in any way gives the status 0 as an ordinary result: no error
  is propagated, and the collection run continues.

  \<^verbatim>\<open>checkURL\<close> has two error branches, the construction of the request and the client's
  answer (main.go's has one), and each returns 0. The worker that ran the probe goes on to
  its send with the update (url, 0) in hand; but for the history of results, nothing else
  of the state changes.
\<close>

theorem C2_probe_failure_is_status_0:
  assumes "(\<exists>e. NewRequestWithContext env ''GET'' u = Inl e) \<or>
           (\<exists>req e. NewRequestWithContext env ''GET'' u = Inr req \<and>
              client_Do env \<lparr>Timeout = 5\<rparr> (header_Set req ''User-Agent'' (userAgent s)) = Inl e)"
    and "client_Get \<lparr>Timeout = 5\<rparr> u = Inl e'"
    and "i < length (workers s)" and "workers s ! i = Probing u"
  shows "checkURL env (userAgent s) u = 0
       \<and> checkURL_main_go client_Get u = 0
       \<and> step (WorkerProbe i env) s =
           Some (s\<lparr>workers := (workers s)[i := AwaitSend \<lparr>url = u, status = 0\<rparr>],
                   produced := produced s @ [\<lparr>url = u, status = 0\<rparr>]\<rparr>)"
proof -
  have c: "checkURL env (userAgent s) u = 0"
    using assms(1) by (auto simp: checkURL_def Let_def)
  have g: "checkURL_main_go client_Get u = 0"
    using assms(2) by (simp add: checkURL_main_go_def)
  show ?thesis using c g assms(3,4) by (simp add: Let_def)
qed

theorem C2_witness:
  "NewRequestWithContext net_down ''GET'' ''http://b.example/''
     = Inr \<lparr>req_method = ''GET'', req_url = ''http://b.example/'', req_header = []\<rparr>
   \<and> client_Do net_down \<lparr>Timeout = 5\<rparr>
        (header_Set \<lparr>req_method = ''GET'', req_url = ''http://b.example/'', req_header = []\<rparr>
           ''User-Agent'' (userAgent probing_two))
     = Inl (Error ''connection refused'')
   \<and> (\<lambda>c u. Inl (Error ''no such host'')) \<lparr>Timeout = 5\<rparr> ''http://b.example/''
     = (Inl (Error ''no such host'') :: error + response)
   \<and> 1 < length (workers probing_two)
   \<and> workers probing_two ! 1 = Probing ''http://b.example/''
   \<and> checkURL net_down (userAgent probing_two) ''http://b.example/'' = 0
   \<and> checkURL_main_go (\<lambda>c u. Inl (Error ''no such host'')) ''http://b.example/'' = 0
   \<and> step (WorkerProbe 1 net_down) probing_two =
       Some (probing_two\<lparr>workers := (workers probing_two)[1 := AwaitSend \<lparr>url = ''http://b.example/'', status = 0\<rparr>],
                         produced := produced probing_two @ [\<lparr>url = ''http://b.example/'', status = 0\<rparr>]\<rparr>)"
proof -
  have a: "(\<exists>e. NewRequestWithContext net_down ''GET'' ''http://b.example/'' = Inl e) \<or>
           (\<exists>req e. NewRequestWithContext net_down ''GET'' ''http://b.example/'' = Inr req \<and>
              client_Do net_down \<lparr>Timeout = 5\<rparr>
                (header_Set req ''User-Agent'' (userAgent probing_two)) = Inl e)"
    by (simp add: net_down_def)
  have b: "(\<lambda>c u. Inl (Error ''no such host'')) \<lparr>Timeout = 5\<rparr> ''http://b.example/''
     = (Inl (Error ''no such host'') :: error + response)"
    by simp
  have c: "1 < length (workers probing_two)" by (simp add: probing_two_def)
  have d: "workers probing_two ! 1 = Probing ''http://b.example/''"
    by (simp add: probing_two_def)
  have h1: "NewRequestWithContext net_down ''GET'' ''http://b.example/''
     = Inr \<lparr>req_method = ''GET'', req_url = ''http://b.example/'', req_header = []\<rparr>"
    by (simp add: net_down_def)
  have h2: "client_Do net_down \<lparr>Timeout = 5\<rparr>
        (header_Set \<lparr>req_method = ''GET'', req_url = ''http://b.example/'', req_header = []\<rparr>
           ''User-Agent'' (userAgent probing_two))
     = Inl (Error ''connection refused'')"
    by (simp add: net_down_def)
  show ?thesis
    using C2_probe_failure_is_status_0[OF a b c d] h1 h2 b c d
    by blast
qed

section \<open>A run that times out\<close>



section \<open>A query that fails\<close>



section \<open>Results per run, values per URL\<close>




section \<open>Workers return, then the handler goes on\<close>

text \<open>
  C6. A worker exits exactly when the URL stream is closed and drained or the
  cancellation signal of the run has fired; and the run is not declared complete, nor
  does the drain begin, before all workers have been joined.

  In a reachable state: a step that makes a worker return is taken with the context
  cancelled or with \<^verbatim>\<open>urlChan\<close> closed and empty; a worker at its outer \<^verbatim>\<open>select\<close>
  can return through the receive exactly when the channel is closed and empty, and a
  worker at either \<^verbatim>\<open>select\<close> can return through \<^verbatim>\<open>ctx.Done()\<close> exactly when the
  context is cancelled; outside \<^verbatim>\<open>collectMetrics\<close> all workers have returned, and
  \<^verbatim>\<open>Join\<close> is only taken when they have.
\<close>

theorem C6_workers_exit_and_join:
  assumes "exec sched (init ua) = Some s"
  shows "(\<forall>a s' i. step a s = Some s' \<and> i < length (workers s) \<and> workers s ! i \<noteq> Exited
             \<and> i < length (workers s') \<and> workers s' ! i = Exited
           \<longrightarrow> cancelled s \<or> (urlClosed s \<and> urlChan s = []))
       \<and> (\<forall>i. i < length (workers s) \<and> workers s ! i = AwaitUrl \<longrightarrow>
             (step (WorkerRecv i) s = Some (exit_worker i s) \<longleftrightarrow> urlClosed s \<and> urlChan s = [])
           \<and> (step (WorkerCancel i) s = Some (exit_worker i s) \<longleftrightarrow> cancelled s))
       \<and> (\<forall>i m. i < length (workers s) \<and> workers s ! i = AwaitSend m \<longrightarrow>
             (step (WorkerCancel i) s = Some (exit_worker i s) \<longleftrightarrow> cancelled s))
       \<and> (phase s \<noteq> Collecting \<longrightarrow> list_all (\<lambda>w. w = Exited) (workers s))
       \<and> (\<forall>s'. step Join s = Some s' \<longrightarrow> list_all (\<lambda>w. w = Exited) (workers s))"
proof -
  have w: "wf s" using wf_exec[OF assms wf_init] .
  have 1: "cancelled s \<or> (urlClosed s \<and> urlChan s = [])"
    if h: "step a s = Some s' \<and> i < length (workers s) \<and> workers s ! i \<noteq> Exited
             \<and> i < length (workers s') \<and> workers s' ! i = Exited" for a s' i
  proof -
    from h have st: "step a s = Some s'" by simp
    from st show ?thesis
      by (cases rule: stepE) (use h in \<open>auto simp: serve_def workerCount_def nth_list_update split: if_splits\<close>)
  qed
  have 2: "(step (WorkerRecv i) s = Some (exit_worker i s) \<longleftrightarrow> urlClosed s \<and> urlChan s = [])
           \<and> (step (WorkerCancel i) s = Some (exit_worker i s) \<longleftrightarrow> cancelled s)"
    if h: "i < length (workers s) \<and> workers s ! i = AwaitUrl" for i
  proof -
    have ne: "s\<lparr>urlChan := us, workers := (workers s)[i := Probing u]\<rparr> \<noteq> exit_worker i s" for u us
    proof
      assume "s\<lparr>urlChan := us, workers := (workers s)[i := Probing u]\<rparr> = exit_worker i s"
      then have "workers (s\<lparr>urlChan := us, workers := (workers s)[i := Probing u]\<rparr>) ! i
                 = workers (exit_worker i s) ! i" by simp
      then show False using h by (simp add: exit_worker_def)
    qed
    show ?thesis using h ne by (auto simp: exit_worker_def split: list.splits)
  qed
  have 3: "step (WorkerCancel i) s = Some (exit_worker i s) \<longleftrightarrow> cancelled s"
    if h: "i < length (workers s) \<and> workers s ! i = AwaitSend m" for i m
    using h by (auto simp: exit_worker_def)
  have 4: "phase s \<noteq> Collecting \<longrightarrow> list_all (\<lambda>w. w = Exited) (workers s)"
    using w by (simp add: wf_def)
  have 5: "\<forall>s'. step Join s = Some s' \<longrightarrow> list_all (\<lambda>w. w = Exited) (workers s)"
    by (auto split: if_splits)
  show ?thesis using 1 2 3 4 5 by blast
qed

theorem C6_witness:
  "exec start_two (init ''ua'') = Some probing_two
   \<and> 2 < length (workers probing_two) \<and> workers probing_two ! 2 = AwaitUrl
   \<and> urlClosed probing_two \<and> urlChan probing_two = [] \<and> \<not> cancelled probing_two
   \<and> step (WorkerRecv 2) probing_two = Some (exit_worker 2 probing_two)
   \<and> step (WorkerCancel 2) probing_two \<noteq> Some (exit_worker 2 probing_two)
   \<and> phase probing_two = Collecting"
proof -
  have a: "2 < length (workers probing_two)" "workers probing_two ! 2 = AwaitUrl"
    "urlClosed probing_two" "urlChan probing_two = []" "\<not> cancelled probing_two"
    "phase probing_two = Collecting"
    by (simp_all add: probing_two_def)
  note T = C6_workers_exit_and_join[OF exec_start_two]
  from T a(1,2) have
    "(step (WorkerRecv 2) probing_two = Some (exit_worker 2 probing_two)
        \<longleftrightarrow> urlClosed probing_two \<and> urlChan probing_two = [])
     \<and> (step (WorkerCancel 2) probing_two = Some (exit_worker 2 probing_two)
        \<longleftrightarrow> cancelled probing_two)"
    by blast
  then have r: "step (WorkerRecv 2) probing_two = Some (exit_worker 2 probing_two)"
    and c: "step (WorkerCancel 2) probing_two \<noteq> Some (exit_worker 2 probing_two)"
    using a(3,4,5) by blast+
  show ?thesis by (intro conjI) (rule exec_start_two a r c)+
qed

section \<open>At most 20 probes at a time\<close>



section \<open>What the operator can configure\<close>

text \<open>
  C8, as the claim states it: the worker-pool size and the per-probe timeout are
  configuration options. The program defines no such flag: package flag refuses them, and
  with every flag the program does define set, a run still has 20 workers and a client
  with a timeout of 5 seconds (a server that only answers a client with a timeout of 10
  seconds gets no probe through).
\<close>

theorem C8_counterexample:
  "main [(''workers'', ''50'')] (\<lambda>p. True) = Inl (Error ''flag provided but not defined: -workers'')
   \<and> main [(''timeout'', ''10'')] (\<lambda>p. True) = Inl (Error ''flag provided but not defined: -timeout'')
   \<and> main [(''db'', ''/srv/b.db''), (''port'', ''9100''), (''user-agent'', ''probe/2'')] (\<lambda>p. True)
       = Inr (init ''probe/2'')
   \<and> map_option workers (step (Request (Inr [])) (init ''probe/2'')) = Some (replicate 20 AwaitUrl)
   \<and> checkURL (net_expecting ''probe/2'' 5) ''probe/2'' ''http://a.example/'' = 200
   \<and> checkURL (net_expecting ''probe/2'' 10) ''probe/2'' ''http://a.example/'' = 0"
  by (simp add: main_def flag_defaults_def init_def workerCount_def checkURL_expecting)

text \<open>
  C8, amended. The User-Agent of the probes is a configuration option
  (\<^verbatim>\<open>-user-agent\<close>, by default \<^verbatim>\<open>bookmarks-alive-exporter/1.0\<close>); the pool size and
  the timeout of a probe are the constants 20 and 5 seconds, which no option changes
  (the flags are db, port and user-agent).
\<close>

theorem C8_only_the_user_agent_is_an_option:
  assumes "main args db_ok = Inr s0" and "exec sched s0 = Some s"
  shows "userAgent s = flag_given ''user-agent'' args ''bookmarks-alive-exporter/1.0''
       \<and> fst ` set args \<subseteq> {''db'', ''port'', ''user-agent''}
       \<and> checkURL (net_expecting x t) (userAgent s) u = (if userAgent s = x \<and> t = 5 then 200 else 0)
       \<and> (phase s \<noteq> Idle \<longrightarrow> length (workers s) = 20)
       \<and> (\<forall>rs s'. step (Request (Inr rs)) s = Some s' \<longrightarrow> workers s' = replicate 20 AwaitUrl)"
proof -
  from assms(1) obtain c where c: "flag_Parse args flag_defaults = Inr c"
    and s0: "s0 = init (cfg_userAgent c)"
    by (auto simp: main_def split: sum.splits if_splits)
  have f: "cfg_userAgent c = flag_given ''user-agent'' args ''bookmarks-alive-exporter/1.0''"
    "fst ` set args \<subseteq> {''db'', ''port'', ''user-agent''}"
    using flag_Parse_userAgent[OF c] by (simp_all add: flag_defaults_def)
  have 1: "userAgent s = flag_given ''user-agent'' args ''bookmarks-alive-exporter/1.0''"
    using userAgent_exec[OF assms(2)] s0 f(1) by (simp add: init_def)
  have "wf s" using wf_exec[OF assms(2)] wf_init s0 by simp
  then have 4: "phase s \<noteq> Idle \<longrightarrow> length (workers s) = 20"
    by (simp add: wf_def workerCount_def)
  have 5: "\<forall>rs s'. step (Request (Inr rs)) s = Some s' \<longrightarrow> workers s' = replicate 20 AwaitUrl"
    by (auto simp: workerCount_def split: if_splits)
  show ?thesis using 1 f(2) checkURL_expecting 4 5 by blast
qed

theorem C8_witness:
  "main args_two (\<lambda>p. True) = Inr (init ''ua'')
   \<and> exec start_two (init ''ua'') = Some probing_two
   \<and> userAgent probing_two = ''ua''
   \<and> flag_given ''user-agent'' args_two ''bookmarks-alive-exporter/1.0'' = ''ua''
   \<and> phase probing_two \<noteq> Idle
   \<and> length (workers probing_two) = 20
   \<and> checkURL (net_expecting ''ua'' 5) (userAgent probing_two) ''http://a.example/'' = 200"
proof -
  have m: "main args_two (\<lambda>p. True) = Inr (init ''ua'')"
    by (simp add: main_def args_two_def flag_defaults_def)
  have p: "phase probing_two \<noteq> Idle" by (simp add: probing_two_def)
  have g: "flag_given ''user-agent'' args_two ''bookmarks-alive-exporter/1.0'' = ''ua''"
    by (simp add: flag_given_def args_two_def)
  note T = C8_only_the_user_agent_is_an_option[OF m exec_start_two,
      of "''ua''" 5 "''http://a.example/''"]
  from T g have u: "userAgent probing_two = ''ua''" by simp
  from T p have l: "length (workers probing_two) = 20" by blast
  from T have "checkURL (net_expecting ''ua'' 5) (userAgent probing_two) ''http://a.example/''
      = (if userAgent probing_two = ''ua'' \<and> (5::nat) = 5 then 200 else 0)"
    by blast
  then have c: "checkURL (net_expecting ''ua'' 5) (userAgent probing_two) ''http://a.example/'' = 200"
    using u by simp
  show ?thesis by (intro conjI) (rule m exec_start_two u g p l c)+
qed

section \<open>The result channel is shared\<close>

text \<open>
  C9, as the claim states it: every scrape has a result channel of its own, and no result
  of one run is delivered through another run's drain. \<^verbatim>\<open>metricsChan\<close> is one channel
  for the process: the run of \<open>rows_two\<close> times out and leaves the update of its
  worker 0 in the channel; the next scrape finds the store empty, probes nothing, and its
  drain applies that update and serves it.
\<close>

theorem C9_counterexample:
  "exec (start_two @ timeout_two @ abandon_two) (init ''ua'') = Some abandoned_two
   \<and> replies abandoned_two = [MetricsText []]
   \<and> metricsChan abandoned_two = [\<lparr>url = ''http://a.example/'', status = 200\<rparr>]
   \<and> applied abandoned_two = []
   \<and> exec second_scrape abandoned_two = Some second_two
   \<and> rows second_two = [] \<and> produced second_two = []
   \<and> applied second_two = [\<lparr>url = ''http://a.example/'', status = 200\<rparr>]
   \<and> step DrainDefault second_two
       = Some (second_two\<lparr>phase := Idle, cancelled := True,
            replies := [MetricsText [], MetricsText [line ''http://a.example/'' 200]]\<rparr>)"
  using exec_abandoned_two exec_second_two
  by (simp add: abandoned_two_def second_two_def serve_def exposition_def line_def)

text \<open>
  C9, amended. Every scrape whose query succeeds gets a URL queue, a context and 20
  workers of its own; the result channel is the one the process has, with whatever it
  holds. No step closes or empties it: a step leaves it as it is, or is a worker's send
  that appends an update, or is the drain's receive that takes the oldest update and
  applies it, whichever run produced it.
\<close>

theorem C9_queue_and_workers_per_run_channel_shared:
  assumes "step a s = Some s'"
  shows "((\<exists>rs. a = Request (Inr rs)) \<longrightarrow>
            urlChan s' = [] \<and> \<not> urlClosed s' \<and> \<not> cancelled s'
          \<and> workers s' = replicate workerCount AwaitUrl
          \<and> metricsChan s' = metricsChan s)
       \<and> (metricsChan s' = metricsChan s
          \<or> (\<exists>i m. a = WorkerSend i \<and> metricsChan s' = metricsChan s @ [m])
          \<or> (\<exists>m. a = DrainRecv \<and> metricsChan s = m # metricsChan s'
                \<and> applied s' = applied s @ [m]))"
  using assms by (cases rule: stepE) (auto simp: serve_def)

theorem C9_witness:
  "step (Request (Inr [])) abandoned_two
     = Some (abandoned_two\<lparr>phase := Collecting, cancelled := False, rows := [], cursor := 0,
              feeder := Scanning, urlChan := [], urlClosed := False,
              workers := replicate workerCount AwaitUrl, produced := []\<rparr>)
   \<and> metricsChan (abandoned_two\<lparr>phase := Collecting, cancelled := False, rows := [], cursor := 0,
              feeder := Scanning, urlChan := [], urlClosed := False,
              workers := replicate workerCount AwaitUrl, produced := []\<rparr>)
       = [\<lparr>url = ''http://a.example/'', status = 200\<rparr>]"
proof -
  have st: "step (Request (Inr [])) abandoned_two
     = Some (abandoned_two\<lparr>phase := Collecting, cancelled := False, rows := [], cursor := 0,
              feeder := Scanning, urlChan := [], urlClosed := False,
              workers := replicate workerCount AwaitUrl, produced := []\<rparr>)"
    by (simp add: abandoned_two_def)
  have "metricsChan abandoned_two = [\<lparr>url = ''http://a.example/'', status = 200\<rparr>]"
    by (simp add: abandoned_two_def)
  then show ?thesis
    using C9_queue_and_workers_per_run_channel_shared[OF st] st by simp
qed

section \<open>A gauge series is never deleted\<close>

text \<open>
  C10. Once the status of a URL has been applied to the gauge store, the exposition
  text of every later scrape has a line for that URL with its last applied value, also
  when the URL is no longer in the backing store.

  From a reachable state in which an update for \<open>u\<close> has been applied, after any
  further steps (scrapes of any rows among them): a step that replies with the text of
  the registry has in it the line of \<open>u\<close> with the status of the last update applied
  for \<open>u\<close>, and no other line of \<open>u\<close>.
\<close>

theorem C10_gauge_series_are_never_deleted:
  assumes "exec sched (init ua) = Some s0" and "u \<in> url ` set (applied s0)"
    and "exec sched' s0 = Some s" and "step a s = Some s'"
    and "replies s' = replies s @ [MetricsText body]"
  shows "\<exists>v. last_status (applied s') u = Some v
            \<and> map_of (urlStatus s') u = Some v
            \<and> line u v \<in> set body
            \<and> (\<forall>v'. line u v' \<in> set body \<longrightarrow> v' = v)"
proof -
  have r0: "registry_ok s0" using registry_ok_exec[OF assms(1) registry_ok_init] .
  have r: "registry_ok s" using registry_ok_exec[OF assms(3) r0] .
  have r': "registry_ok s'" using registry_ok_step[OF assms(4) r] .
  from assms(4,5) have b: "body = exposition (urlStatus s')" and a: "applied s' = applied s"
    by (cases rule: stepE; simp add: serve_def)+
  have "u \<in> url ` set (applied s')"
    using assms(2) applied_exec[OF assms(3)] a by auto
  then obtain v where v: "last_status (applied s') u = Some v"
    using last_status_None[of "applied s'" u] by (cases "last_status (applied s') u") auto
  then have m: "map_of (urlStatus s') u = Some v" using r' by (simp add: registry_ok_def)
  have d: "distinct (map fst (urlStatus s'))" using r' by (simp add: registry_ok_def)
  have "(u, v') \<in> set (urlStatus s') \<longleftrightarrow> v' = v" for v'
    using m d by (metis map_of_eq_Some_iff option.inject)
  then show ?thesis using v m b by (auto simp: exposition_line)
qed

text \<open>
  The URL that the timed-out run of \<open>rows_two\<close> had probed is served by the next
  scrape, whose store is empty.
\<close>

theorem C10_witness:
  "exec (start_two @ timeout_two @ abandon_two @ second_scrape) (init ''ua'') = Some second_two
   \<and> ''http://a.example/'' \<in> url ` set (applied second_two)
   \<and> rows second_two = []
   \<and> exec [] second_two = Some second_two
   \<and> step DrainDefault second_two = Some (serve second_two)
   \<and> replies (serve second_two)
       = replies second_two @ [MetricsText [line ''http://a.example/'' 200]]
   \<and> (\<exists>v. last_status (applied (serve second_two)) ''http://a.example/'' = Some v
          \<and> line ''http://a.example/'' v \<in> set [line ''http://a.example/'' 200])"
proof -
  have e: "exec (start_two @ timeout_two @ abandon_two @ second_scrape) (init ''ua'') = Some second_two"
    using exec_append[of "start_two @ timeout_two @ abandon_two" second_scrape "init ''ua''"]
      exec_abandoned_two exec_second_two by simp
  have u: "''http://a.example/'' \<in> url ` set (applied second_two)"
    by (simp add: second_two_def)
  have r: "rows second_two = []" by (simp add: second_two_def)
  have n: "exec [] second_two = Some second_two" by simp
  have st: "step DrainDefault second_two = Some (serve second_two)"
    by (simp add: second_two_def)
  have rp: "replies (serve second_two)
       = replies second_two @ [MetricsText [line ''http://a.example/'' 200]]"
    by (simp add: second_two_def serve_def exposition_def line_def)
  have last: "\<exists>v. last_status (applied (serve second_two)) ''http://a.example/'' = Some v
          \<and> line ''http://a.example/'' v \<in> set [line ''http://a.example/'' 200]"
    using C10_gauge_series_are_never_deleted[OF e u n st rp] by blast
  show ?thesis by (intro conjI) (rule e u r n st rp last)+
qed

end
